theory Spec2Isabelle
  imports Main
begin

section \<open>Errors and wire types\<close>

text \<open>
  JavaScript errors as values. \<open>Error m\<close> is \<^verbatim>\<open>new Error(m)\<close>; \<open>ApiError m s\<close> is the
  client's \<^verbatim>\<open>ApiError\<close> with message \<open>m\<close> and HTTP status \<open>s\<close> (the web client's
  constructor takes \<^verbatim>\<open>(message, status)\<close>, the mobile client's \<^verbatim>\<open>(status, message)\<close>;
  the fields are the same).
\<close>

datatype js_error = Error string | ApiError string int

fun message :: "js_error \<Rightarrow> string" where
  "message (Error m) = m"
| "message (ApiError m s) = m"

fun http_status :: "js_error \<Rightarrow> int option" where
  "http_status (Error m) = None"
| "http_status (ApiError m s) = Some s"

text \<open>
  \<^verbatim>\<open>SessionStatusResponse\<close>: the two fields the pollers read. The status is the string the
  server sent (the TypeScript union is not checked at run time); \<^verbatim>\<open>error_message\<close> is
  \<^verbatim>\<open>string | null\<close>.
\<close>

record SessionStatusResponse =
  status :: string
  error_message :: "string option"

record SessionCreateResponse =
  session_id :: string

text \<open>JavaScript \<^verbatim>\<open>a || b\<close> for \<open>a\<close> of type \<^verbatim>\<open>string | null\<close>: null and the empty string are falsy.\<close>

definition or_else :: "string option \<Rightarrow> string \<Rightarrow> string" where
  "or_else a b = (case a of None \<Rightarrow> b | Some s \<Rightarrow> if s = [] then b else s)"

text \<open>A parameter with a default value: the default applies when the argument is omitted.\<close>

fun param :: "'a \<Rightarrow> 'a option \<Rightarrow> 'a" where
  "param d None = d"
| "param d (Some v) = v"

section \<open>The remote API and the observable world\<close>

text \<open>
  The remote API is an environment: what each endpoint answers to its \<open>n\<close>-th call
  (counted from 0), either a response or the error the fetch wrapper throws.
\<close>

record 'r server =
  status_endpoint :: "string \<Rightarrow> nat \<Rightarrow> js_error + SessionStatusResponse"
  report_endpoint :: "string \<Rightarrow> nat \<Rightarrow> js_error + 'r"
  create_endpoint :: "string \<Rightarrow> string \<Rightarrow> nat \<Rightarrow> js_error + SessionCreateResponse"

datatype event =
    StatusCall string
  | ReportCall string
  | CreateCall string string
  | Sleep int
  | ProgressStatus string
  | ProgressResponse SessionStatusResponse

text \<open>
  The world threads through every call: how often each endpoint was called, the
  chronological trace of effects, and the caller's own state, which only the progress
  callback touches.
\<close>

record 'c world =
  status_calls :: nat
  report_calls :: nat
  create_calls :: nat
  trace :: "event list"
  caller :: 'c

definition call_status ::
  "'r server \<Rightarrow> string \<Rightarrow> 'c world \<Rightarrow> (js_error + SessionStatusResponse) \<times> 'c world" where
  "call_status srv sid w =
     (status_endpoint srv sid (status_calls w),
      w\<lparr>status_calls := Suc (status_calls w), trace := trace w @ [StatusCall sid]\<rparr>)"

definition call_report ::
  "'r server \<Rightarrow> string \<Rightarrow> 'c world \<Rightarrow> (js_error + 'r) \<times> 'c world" where
  "call_report srv sid w =
     (report_endpoint srv sid (report_calls w),
      w\<lparr>report_calls := Suc (report_calls w), trace := trace w @ [ReportCall sid]\<rparr>)"

definition createSession ::
  "'r server \<Rightarrow> string \<Rightarrow> string \<Rightarrow> 'c world \<Rightarrow> (js_error + SessionCreateResponse) \<times> 'c world" where
  "createSession srv audioUri contentType w =
     (create_endpoint srv audioUri contentType (create_calls w),
      w\<lparr>create_calls := Suc (create_calls w),
        trace := trace w @ [CreateCall audioUri contentType]\<rparr>)"

text \<open>
  \<^verbatim>\<open>onProgress?.(p)\<close>: nothing when no callback was passed; otherwise the callback runs on
  the caller's state and the invocation is recorded. Here callbacks are taken not to
  throw (the one in the repository is a state setter); callbacks that may throw are
  treated further down, with the caller's own activity during a poll.
\<close>

definition notify :: "('p \<Rightarrow> 'c \<Rightarrow> 'c) option \<Rightarrow> event \<Rightarrow> 'p \<Rightarrow> 'c world \<Rightarrow> 'c world" where
  "notify onProgress ev p w =
     (case onProgress of
        None \<Rightarrow> w
      | Some f \<Rightarrow> w\<lparr>trace := trace w @ [ev], caller := f p (caller w)\<rparr>)"

text \<open>\<^verbatim>\<open>await new Promise(resolve => setTimeout(resolve, ms))\<close>\<close>

definition sleep :: "int \<Rightarrow> 'c world \<Rightarrow> 'c world" where
  "sleep ms w = w\<lparr>trace := trace w @ [Sleep ms]\<rparr>"

section \<open>The completion pollers\<close>

text \<open>
  \<^verbatim>\<open>pollSessionStatus\<close> (shared API client; the copy in the mobile app is identical):
  the \<^verbatim>\<open>while (attempts < maxAttempts)\<close> loop, with \<open>attempts\<close> as an argument.
  The interval and the attempt count are taken to be integers. An optional parameter is
  an \<open>option\<close>, \<open>None\<close> when the caller omits it.
\<close>

function pollSessionStatus_loop ::
  "'r server \<Rightarrow> string \<Rightarrow> (string \<Rightarrow> 'c \<Rightarrow> 'c) option \<Rightarrow> int \<Rightarrow> int \<Rightarrow> int \<Rightarrow> 'c world
     \<Rightarrow> (js_error + 'r) \<times> 'c world" where
  "pollSessionStatus_loop srv sessionId onProgress interval maxAttempts attempts w =
     (if attempts < maxAttempts then
        (case call_status srv sessionId w of
           (Inl e, w1) \<Rightarrow> (Inl e, w1)
         | (Inr st, w1) \<Rightarrow>
             (let w2 = notify onProgress (ProgressStatus (status st)) (status st) w1 in
              if status st = ''completed'' then call_report srv sessionId w2
              else if status st = ''failed'' then
                (Inl (ApiError (or_else (error_message st) ''Processing failed'') 500), w2)
              else pollSessionStatus_loop srv sessionId onProgress interval maxAttempts
                     (attempts + 1) (sleep interval w2)))
      else (Inl (ApiError ''Processing timed out'' 408), w))"
  by pat_completeness auto
termination
  by (relation "measure (\<lambda>(srv, sid, cb, interval, maxAttempts, attempts, w).
         nat (maxAttempts - attempts))") auto

definition pollSessionStatus ::
  "'r server \<Rightarrow> string \<Rightarrow> (string \<Rightarrow> 'c \<Rightarrow> 'c) option \<Rightarrow> int option \<Rightarrow> int option \<Rightarrow> 'c world
     \<Rightarrow> (js_error + 'r) \<times> 'c world" where
  "pollSessionStatus srv sessionId onProgress interval maxAttempts w =
     pollSessionStatus_loop srv sessionId onProgress
       (param 1000 interval) (param 120 maxAttempts) 0 w"

text \<open>
  \<^verbatim>\<open>api.waitForCompletion\<close> (mobile API service): the
  \<^verbatim>\<open>for (let i = 0; i < maxAttempts; i++)\<close> loop. The callback receives the whole status
  response; \<open>maxAttempts\<close> comes before \<open>intervalMs\<close>.
\<close>

function waitForCompletion_loop ::
  "'r server \<Rightarrow> string \<Rightarrow> (SessionStatusResponse \<Rightarrow> 'c \<Rightarrow> 'c) option \<Rightarrow> int \<Rightarrow> int \<Rightarrow> int
     \<Rightarrow> 'c world \<Rightarrow> (js_error + 'r) \<times> 'c world" where
  "waitForCompletion_loop srv sessionId onProgress maxAttempts intervalMs i w =
     (if i < maxAttempts then
        (case call_status srv sessionId w of
           (Inl e, w1) \<Rightarrow> (Inl e, w1)
         | (Inr st, w1) \<Rightarrow>
             (let w2 = notify onProgress (ProgressResponse st) st w1 in
              if status st = ''completed'' then call_report srv sessionId w2
              else if status st = ''failed'' then
                (Inl (ApiError (or_else (error_message st) ''Processing failed'') 500), w2)
              else waitForCompletion_loop srv sessionId onProgress maxAttempts intervalMs
                     (i + 1) (sleep intervalMs w2)))
      else (Inl (ApiError ''Timeout waiting for processing to complete'' 408), w))"
  by pat_completeness auto
termination
  by (relation "measure (\<lambda>(srv, sid, cb, maxAttempts, intervalMs, i, w).
         nat (maxAttempts - i))") auto

definition waitForCompletion ::
  "'r server \<Rightarrow> string \<Rightarrow> (SessionStatusResponse \<Rightarrow> 'c \<Rightarrow> 'c) option \<Rightarrow> int option \<Rightarrow> int option
     \<Rightarrow> 'c world \<Rightarrow> (js_error + 'r) \<times> 'c world" where
  "waitForCompletion srv sessionId onProgress maxAttempts intervalMs w =
     waitForCompletion_loop srv sessionId onProgress
       (param 60 maxAttempts) (param 2000 intervalMs) 0 w"

section \<open>The audio recorder hook\<close>

text \<open>
  The platform's audio API as an environment: whether microphone permission is granted,
  whether configuring or starting the recording throws, whether unloading or resetting
  the audio mode throws, and the URI the finished recording reports.
\<close>

record platform =
  granted :: bool
  start_failure :: "js_error option"
  unload_failure :: "js_error option"
  audio_mode_failure :: "js_error option"
  recorded_uri :: "string option"

record RecordingState =
  isRecording :: bool
  isPaused :: bool
  duration :: int
  uri :: "string option"

text \<open>
  The hook's state: \<open>recordingRef\<close> and \<open>intervalRef\<close> say whether the refs hold a
  recording and a timer. The timer's periodic update of duration and metering is not
  modelled.
\<close>

record recorder =
  state :: RecordingState
  metering :: int
  recordingRef :: bool
  intervalRef :: bool

definition startRecording :: "platform \<Rightarrow> recorder \<Rightarrow> (js_error + unit) \<times> recorder" where
  "startRecording plat r =
     (if \<not> granted plat then (Inl (Error ''Microphone permission required''), r)
      else (case start_failure plat of
              Some e \<Rightarrow> (Inl e, r)
            | None \<Rightarrow>
                (Inr (),
                 r\<lparr>recordingRef := True, intervalRef := True,
                   state := \<lparr>isRecording = True, isPaused = False, duration = 0, uri = None\<rparr>\<rparr>)))"

definition stopRecording :: "platform \<Rightarrow> recorder \<Rightarrow> (js_error + string option) \<times> recorder" where
  "stopRecording plat r =
     (if \<not> recordingRef r then (Inr None, r)
      else
        (let r1 = r\<lparr>intervalRef := False\<rparr> in
         case unload_failure plat of
           Some e \<Rightarrow> (Inl e, r1)
         | None \<Rightarrow>
             (let u = recorded_uri plat; r2 = r1\<lparr>recordingRef := False\<rparr> in
              case audio_mode_failure plat of
                Some e \<Rightarrow> (Inl e, r2)
              | None \<Rightarrow>
                  (Inr u,
                   r2\<lparr>state := (state r2)\<lparr>isRecording := False, isPaused := False, uri := u\<rparr>\<rparr>))))"

definition resetRecording :: "recorder \<Rightarrow> recorder" where
  "resetRecording r =
     r\<lparr>state := \<lparr>isRecording = False, isPaused = False, duration = 0, uri = None\<rparr>,
       metering := - 160\<rparr>"

section \<open>The record screen\<close>

datatype RecordingPhase = Idle | Recording | Uploading | Processing

text \<open>
  The screen's React state, the recorder it owns, every \<^verbatim>\<open>setPhase\<close> call in order and
  the reports it navigated to.
\<close>

record 'r screen =
  phase :: RecordingPhase
  error :: "string option"
  processingStatus :: string
  phase_history :: "RecordingPhase list"
  navigated :: "'r list"
  recorder :: recorder

definition setPhase :: "RecordingPhase \<Rightarrow> 'r screen world \<Rightarrow> 'r screen world" where
  "setPhase p w = w\<lparr>caller := (caller w)\<lparr>phase := p, phase_history := phase_history (caller w) @ [p]\<rparr>\<rparr>"

definition setError :: "string option \<Rightarrow> 'r screen world \<Rightarrow> 'r screen world" where
  "setError e w = w\<lparr>caller := (caller w)\<lparr>error := e\<rparr>\<rparr>"

definition setProcessingStatus :: "string \<Rightarrow> 'r screen \<Rightarrow> 'r screen" where
  "setProcessingStatus s c = c\<lparr>processingStatus := s\<rparr>"

definition navigate :: "'r \<Rightarrow> 'r screen world \<Rightarrow> 'r screen world" where
  "navigate report w = w\<lparr>caller := (caller w)\<lparr>navigated := navigated (caller w) @ [report]\<rparr>\<rparr>"

definition set_recorder :: "recorder \<Rightarrow> 'r screen world \<Rightarrow> 'r screen world" where
  "set_recorder r w = w\<lparr>caller := (caller w)\<lparr>recorder := r\<rparr>\<rparr>"

definition handleStartRecording :: "platform \<Rightarrow> 'r screen world \<Rightarrow> 'r screen world" where
  "handleStartRecording plat w =
     (let w1 = setError None w in
      case startRecording plat (recorder (caller w1)) of
        (Inl e, r) \<Rightarrow> setError (Some (message e)) (set_recorder r w1)
      | (Inr _, r) \<Rightarrow> setPhase Recording (set_recorder r w1))"

text \<open>
  The \<^verbatim>\<open>catch\<close> block of \<^verbatim>\<open>handleStopRecording\<close>, and the handler itself;
  \<^verbatim>\<open>!uri\<close> holds for null and for the empty string.
\<close>

definition stop_failed :: "js_error \<Rightarrow> 'r screen world \<Rightarrow> 'r screen world" where
  "stop_failed e w = setPhase Idle (setError (Some (message e)) w)"

definition handleStopRecording ::
  "'r server \<Rightarrow> platform \<Rightarrow> 'r screen world \<Rightarrow> 'r screen world" where
  "handleStopRecording srv plat w =
     (case stopRecording plat (recorder (caller w)) of
        (Inl e, r) \<Rightarrow> stop_failed e (set_recorder r w)
      | (Inr None, r) \<Rightarrow>
          setPhase Idle (setError (Some ''No recording found'') (set_recorder r w))
      | (Inr (Some audioUri), r) \<Rightarrow>
          (let w0 = set_recorder r w in
           if audioUri = [] then setPhase Idle (setError (Some ''No recording found'') w0)
           else
             (let w1 = setPhase Uploading w0 in
              case createSession srv audioUri ''audio/m4a'' w1 of
                (Inl e, w2) \<Rightarrow> stop_failed e w2
              | (Inr createResponse, w2) \<Rightarrow>
                  (let w3 = setPhase Processing w2 in
                   case waitForCompletion srv (session_id createResponse)
                          (Some (\<lambda>st. setProcessingStatus (status st))) None None w3 of
                     (Inl e, w4) \<Rightarrow> stop_failed e w4
                   | (Inr report, w4) \<Rightarrow>
                       (let w5 = setPhase Idle (navigate report w4) in
                        set_recorder (resetRecording (recorder (caller w5))) w5)))))"

section \<open>A common form of the two polling loops\<close>

text \<open>
  Both loops have one shape; they differ in what the callback receives (\<open>proj\<close>, recorded
  as \<open>ev\<close>) and in the timeout error \<open>tmo\<close>. Properties are proved once, on this form.
\<close>

function poll_core ::
  "'r server \<Rightarrow> string \<Rightarrow> ('p \<Rightarrow> 'c \<Rightarrow> 'c) option \<Rightarrow> (SessionStatusResponse \<Rightarrow> event) \<Rightarrow>
   (SessionStatusResponse \<Rightarrow> 'p) \<Rightarrow> js_error \<Rightarrow> int \<Rightarrow> int \<Rightarrow> int \<Rightarrow> 'c world
     \<Rightarrow> (js_error + 'r) \<times> 'c world" where
  "poll_core srv sid cb ev proj tmo interval maxAttempts attempts w =
     (if attempts < maxAttempts then
        (case status_endpoint srv sid (status_calls w) of
           Inl e \<Rightarrow> (Inl e, snd (call_status srv sid w))
         | Inr st \<Rightarrow>
             (let w2 = notify cb (ev st) (proj st) (snd (call_status srv sid w)) in
              if status st = ''completed'' then call_report srv sid w2
              else if status st = ''failed'' then
                (Inl (ApiError (or_else (error_message st) ''Processing failed'') 500), w2)
              else poll_core srv sid cb ev proj tmo interval maxAttempts
                     (attempts + 1) (sleep interval w2)))
      else (Inl tmo, w))"
  by pat_completeness auto
termination
  by (relation "measure (\<lambda>(srv, sid, cb, ev, proj, tmo, interval, maxAttempts, attempts, w).
         nat (maxAttempts - attempts))") auto

text \<open>One poll round that observed \<open>st\<close> and went on, and a run of such rounds.\<close>

definition round :: 
  "string \<Rightarrow> ('p \<Rightarrow> 'c \<Rightarrow> 'c) option \<Rightarrow> (SessionStatusResponse \<Rightarrow> event) \<Rightarrow>
   (SessionStatusResponse \<Rightarrow> 'p) \<Rightarrow> int \<Rightarrow> SessionStatusResponse \<Rightarrow> 'c world \<Rightarrow> 'c world" where
  "round sid cb ev proj interval st w =
     sleep interval (notify cb (ev st) (proj st)
       (w\<lparr>status_calls := Suc (status_calls w), trace := trace w @ [StatusCall sid]\<rparr>))"

fun rounds ::
  "string \<Rightarrow> ('p \<Rightarrow> 'c \<Rightarrow> 'c) option \<Rightarrow> (SessionStatusResponse \<Rightarrow> event) \<Rightarrow>
   (SessionStatusResponse \<Rightarrow> 'p) \<Rightarrow> int \<Rightarrow> SessionStatusResponse list \<Rightarrow> 'c world \<Rightarrow> 'c world" where
  "rounds sid cb ev proj interval [] w = w"
| "rounds sid cb ev proj interval (st # sts) w =
     rounds sid cb ev proj interval sts (round sid cb ev proj interval st w)"

text \<open>The events of a callback invocation, and the callback's effect on the caller.\<close>

definition cb_events :: "('p \<Rightarrow> 'c \<Rightarrow> 'c) option \<Rightarrow> event \<Rightarrow> event list" where
  "cb_events cb e = (case cb of None \<Rightarrow> [] | Some f \<Rightarrow> [e])"

definition cb_apply :: "('p \<Rightarrow> 'c \<Rightarrow> 'c) option \<Rightarrow> 'p \<Rightarrow> 'c \<Rightarrow> 'c" where
  "cb_apply cb p c = (case cb of None \<Rightarrow> c | Some f \<Rightarrow> f p c)"

fun is_poll_event :: "event \<Rightarrow> bool" where
  "is_poll_event (StatusCall sid) = True"
| "is_poll_event (ProgressStatus s) = True"
| "is_poll_event (ProgressResponse st) = True"
| "is_poll_event e = False"

section \<open>Callbacks that may throw, and the caller's activity during a poll\<close>

text \<open>
  Neither loop wraps the callback in \<^verbatim>\<open>try\<close>, so an exception thrown by the callback
  rejects the poll. A callback is now a function that returns the error it throws, if
  any, and the caller's new state. The rest of the application runs while the poller is
  suspended at an \<^verbatim>\<open>await\<close>: \<open>during_fetch act n\<close> is what it does to the caller's state
  while status request number \<open>n\<close> is in flight, \<open>during_sleep act n\<close> what it does during
  the sleep after that request.
\<close>

record 'c activity =
  during_fetch :: "nat \<Rightarrow> 'c \<Rightarrow> 'c"
  during_sleep :: "nat \<Rightarrow> 'c \<Rightarrow> 'c"

definition suspended :: "('c \<Rightarrow> 'c) \<Rightarrow> 'c world \<Rightarrow> 'c world" where
  "suspended g w = w\<lparr>caller := g (caller w)\<rparr>"

definition invoke ::
  "('p \<Rightarrow> 'c \<Rightarrow> js_error option \<times> 'c) option \<Rightarrow> event \<Rightarrow> 'p \<Rightarrow> 'c world
     \<Rightarrow> js_error option \<times> 'c world" where
  "invoke onProgress ev p w =
     (case onProgress of
        None \<Rightarrow> (None, w)
      | Some f \<Rightarrow>
          (fst (f p (caller w)),
           w\<lparr>trace := trace w @ [ev], caller := snd (f p (caller w))\<rparr>))"

function pollSessionStatus_async_loop ::
  "'r server \<Rightarrow> 'c activity \<Rightarrow> string \<Rightarrow> (string \<Rightarrow> 'c \<Rightarrow> js_error option \<times> 'c) option \<Rightarrow>
   int \<Rightarrow> int \<Rightarrow> int \<Rightarrow> 'c world \<Rightarrow> (js_error + 'r) \<times> 'c world" where
  "pollSessionStatus_async_loop srv act sessionId onProgress interval maxAttempts attempts w =
     (if attempts < maxAttempts then
        (case call_status srv sessionId w of
           (Inl e, w0) \<Rightarrow> (Inl e, suspended (during_fetch act (status_calls w)) w0)
         | (Inr st, w0) \<Rightarrow>
             (case invoke onProgress (ProgressStatus (status st)) (status st)
                     (suspended (during_fetch act (status_calls w)) w0) of
                (Some e, w2) \<Rightarrow> (Inl e, w2)
              | (None, w2) \<Rightarrow>
                  if status st = ''completed'' then call_report srv sessionId w2
                  else if status st = ''failed'' then
                    (Inl (ApiError (or_else (error_message st) ''Processing failed'') 500), w2)
                  else pollSessionStatus_async_loop srv act sessionId onProgress interval
                         maxAttempts (attempts + 1)
                         (suspended (during_sleep act (status_calls w)) (sleep interval w2))))
      else (Inl (ApiError ''Processing timed out'' 408), w))"
  by pat_completeness auto
termination
  by (relation "measure (\<lambda>(srv, act, sid, cb, interval, maxAttempts, attempts, w).
         nat (maxAttempts - attempts))") auto

definition pollSessionStatus_async ::
  "'r server \<Rightarrow> 'c activity \<Rightarrow> string \<Rightarrow> (string \<Rightarrow> 'c \<Rightarrow> js_error option \<times> 'c) option \<Rightarrow>
   int option \<Rightarrow> int option \<Rightarrow> 'c world \<Rightarrow> (js_error + 'r) \<times> 'c world" where
  "pollSessionStatus_async srv act sessionId onProgress interval maxAttempts w =
     pollSessionStatus_async_loop srv act sessionId onProgress
       (param 1000 interval) (param 120 maxAttempts) 0 w"

function waitForCompletion_async_loop ::
  "'r server \<Rightarrow> 'c activity \<Rightarrow> string \<Rightarrow>
   (SessionStatusResponse \<Rightarrow> 'c \<Rightarrow> js_error option \<times> 'c) option \<Rightarrow>
   int \<Rightarrow> int \<Rightarrow> int \<Rightarrow> 'c world \<Rightarrow> (js_error + 'r) \<times> 'c world" where
  "waitForCompletion_async_loop srv act sessionId onProgress maxAttempts intervalMs i w =
     (if i < maxAttempts then
        (case call_status srv sessionId w of
           (Inl e, w0) \<Rightarrow> (Inl e, suspended (during_fetch act (status_calls w)) w0)
         | (Inr st, w0) \<Rightarrow>
             (case invoke onProgress (ProgressResponse st) st
                     (suspended (during_fetch act (status_calls w)) w0) of
                (Some e, w2) \<Rightarrow> (Inl e, w2)
              | (None, w2) \<Rightarrow>
                  if status st = ''completed'' then call_report srv sessionId w2
                  else if status st = ''failed'' then
                    (Inl (ApiError (or_else (error_message st) ''Processing failed'') 500), w2)
                  else waitForCompletion_async_loop srv act sessionId onProgress maxAttempts
                         intervalMs (i + 1)
                         (suspended (during_sleep act (status_calls w)) (sleep intervalMs w2))))
      else (Inl (ApiError ''Timeout waiting for processing to complete'' 408), w))"
  by pat_completeness auto
termination
  by (relation "measure (\<lambda>(srv, act, sid, cb, maxAttempts, intervalMs, i, w).
         nat (maxAttempts - i))") auto

definition waitForCompletion_async ::
  "'r server \<Rightarrow> 'c activity \<Rightarrow> string \<Rightarrow>
   (SessionStatusResponse \<Rightarrow> 'c \<Rightarrow> js_error option \<times> 'c) option \<Rightarrow>
   int option \<Rightarrow> int option \<Rightarrow> 'c world \<Rightarrow> (js_error + 'r) \<times> 'c world" where
  "waitForCompletion_async srv act sessionId onProgress maxAttempts intervalMs w =
     waitForCompletion_async_loop srv act sessionId onProgress
       (param 60 maxAttempts) (param 2000 intervalMs) 0 w"

text \<open>The error a callback invocation throws, if any; \<open>None\<close> too when no callback was passed.\<close>

definition thrown :: "('p \<Rightarrow> 'c \<Rightarrow> js_error option \<times> 'c) option \<Rightarrow> 'p \<Rightarrow> 'c \<Rightarrow> js_error option" where
  "thrown onProgress p c = (case onProgress of None \<Rightarrow> None | Some f \<Rightarrow> fst (f p c))"

text \<open>The world after the status request of an attempt and its callback invocation.\<close>

definition observed ::
  "'c activity \<Rightarrow> string \<Rightarrow> ('p \<Rightarrow> 'c \<Rightarrow> js_error option \<times> 'c) option \<Rightarrow> event \<Rightarrow> 'p \<Rightarrow>
   'c world \<Rightarrow> 'c world" where
  "observed act sid onProgress ev p w =
     snd (invoke onProgress ev p
       (suspended (during_fetch act (status_calls w))
          (w\<lparr>status_calls := Suc (status_calls w), trace := trace w @ [StatusCall sid]\<rparr>)))"

text \<open>The common form of the two loops above.\<close>

function poll_async_core ::
  "'r server \<Rightarrow> 'c activity \<Rightarrow> string \<Rightarrow> ('p \<Rightarrow> 'c \<Rightarrow> js_error option \<times> 'c) option \<Rightarrow>
   (SessionStatusResponse \<Rightarrow> event) \<Rightarrow> (SessionStatusResponse \<Rightarrow> 'p) \<Rightarrow> js_error \<Rightarrow>
   int \<Rightarrow> int \<Rightarrow> int \<Rightarrow> 'c world \<Rightarrow> (js_error + 'r) \<times> 'c world" where
  "poll_async_core srv act sid cb ev proj tmo interval maxAttempts attempts w =
     (if attempts < maxAttempts then
        (case status_endpoint srv sid (status_calls w) of
           Inl e \<Rightarrow>
             (Inl e, suspended (during_fetch act (status_calls w))
                       (w\<lparr>status_calls := Suc (status_calls w), trace := trace w @ [StatusCall sid]\<rparr>))
         | Inr st \<Rightarrow>
             (case thrown cb (proj st) (during_fetch act (status_calls w) (caller w)) of
                Some e \<Rightarrow> (Inl e, observed act sid cb (ev st) (proj st) w)
              | None \<Rightarrow>
                  if status st = ''completed'' then
                    call_report srv sid (observed act sid cb (ev st) (proj st) w)
                  else if status st = ''failed'' then
                    (Inl (ApiError (or_else (error_message st) ''Processing failed'') 500),
                     observed act sid cb (ev st) (proj st) w)
                  else poll_async_core srv act sid cb ev proj tmo interval maxAttempts
                         (attempts + 1)
                         (suspended (during_sleep act (status_calls w))
                            (sleep interval (observed act sid cb (ev st) (proj st) w)))))
      else (Inl tmo, w))"
  by pat_completeness auto
termination
  by (relation "measure (\<lambda>(srv, act, sid, cb, ev, proj, tmo, interval, maxAttempts, attempts, w).
         nat (maxAttempts - attempts))") auto

text \<open>
  A caller that does nothing during a poll, and a callback that only updates the state.
\<close>

definition idle :: "'c activity" where
  "idle = \<lparr>during_fetch = (\<lambda>n c. c), during_sleep = (\<lambda>n c. c)\<rparr>"

definition returning :: "('p \<Rightarrow> 'c \<Rightarrow> 'c) \<Rightarrow> 'p \<Rightarrow> 'c \<Rightarrow> js_error option \<times> 'c" where
  "returning f p c = (None, f p c)"

section \<open>Concrete scenarios\<close>

definition fresh :: "'c \<Rightarrow> 'c world" where
  "fresh c = \<lparr>status_calls = 0, report_calls = 0, create_calls = 0, trace = [], caller = c\<rparr>"

definition reply :: "string \<Rightarrow> SessionStatusResponse" where
  "reply s = \<lparr>status = s, error_message = None\<rparr>"

text \<open>
  A server that answers the status calls with the given script (and a network failure
  once the script is used up), serves a report and accepts uploads as session \<open>abc\<close>.
\<close>

definition scripted :: "SessionStatusResponse list \<Rightarrow> string server" where
  "scripted script =
     \<lparr>status_endpoint =
        (\<lambda>sid n. if n < length script then Inr (script ! n)
                 else Inl (Error ''Network request failed'')),
      report_endpoint = (\<lambda>sid n. Inr (''report of '' @ sid)),
      create_endpoint = (\<lambda>audioUri contentType n. Inr \<lparr>session_id = ''abc''\<rparr>)\<rparr>"

text \<open>A server whose status endpoint always answers with the same status.\<close>

definition always :: "string \<Rightarrow> string server" where
  "always s =
     \<lparr>status_endpoint = (\<lambda>sid n. Inr (reply s)),
      report_endpoint = (\<lambda>sid n. Inr (''report of '' @ sid)),
      create_endpoint = (\<lambda>audioUri contentType n. Inr \<lparr>session_id = ''abc''\<rparr>)\<rparr>"

text \<open>
  A server whose status endpoint answers processing to the first \<open>k\<close> calls and
  completed from then on.
\<close>

definition completing_after :: "nat \<Rightarrow> string server" where
  "completing_after k =
     \<lparr>status_endpoint = (\<lambda>sid n. Inr (reply (if n < k then ''processing'' else ''completed''))),
      report_endpoint = (\<lambda>sid n. Inr (''report of '' @ sid)),
      create_endpoint = (\<lambda>audioUri contentType n. Inr \<lparr>session_id = ''abc''\<rparr>)\<rparr>"

text \<open>The hook and the screen as first rendered, and two platforms.\<close>

definition initial_recorder :: recorder where
  "initial_recorder =
     \<lparr>state = \<lparr>isRecording = False, isPaused = False, duration = 0, uri = None\<rparr>,
      metering = - 160, recordingRef = False, intervalRef = False\<rparr>"

definition initial_screen :: "string screen" where
  "initial_screen =
     \<lparr>phase = Idle, error = None, processingStatus = [], phase_history = [], navigated = [],
      recorder = initial_recorder\<rparr>"

definition denying :: platform where
  "denying =
     \<lparr>granted = False, start_failure = None, unload_failure = None, audio_mode_failure = None,
      recorded_uri = None\<rparr>"

definition recording_to :: "string option \<Rightarrow> platform" where
  "recording_to u =
     \<lparr>granted = True, start_failure = None, unload_failure = None, audio_mode_failure = None,
      recorded_uri = u\<rparr>"



section \<open>Properties of the polling loop\<close>

declare poll_core.simps [simp del]
declare pollSessionStatus_loop.simps [simp del]
declare waitForCompletion_loop.simps [simp del]

lemma pollSessionStatus_loop_core:
  "pollSessionStatus_loop srv sid cb interval maxA attempts w =
   poll_core srv sid cb (\<lambda>st. ProgressStatus (status st)) status
     (ApiError ''Processing timed out'' 408) interval maxA attempts w"
proof (induction "nat (maxA - attempts)" arbitrary: attempts w)
  case 0
  then have "\<not> attempts < maxA" by simp
  then show ?case
    by (simp add: pollSessionStatus_loop.simps [of _ _ _ _ _ attempts] poll_core.simps [of _ _ _ _ _ _ _ _ attempts])
next
  case (Suc n)
  then have lt: "attempts < maxA" and n: "n = nat (maxA - (attempts + 1))" by simp_all
  show ?case
    apply (subst pollSessionStatus_loop.simps)
    apply (subst poll_core.simps)
    apply (simp add: call_status_def Let_def Suc.hyps(1) [OF n] split: sum.splits)
    done
qed

lemma waitForCompletion_loop_core:
  "waitForCompletion_loop srv sid cb maxA interval attempts w =
   poll_core srv sid cb ProgressResponse (\<lambda>st. st)
     (ApiError ''Timeout waiting for processing to complete'' 408) interval maxA attempts w"
proof (induction "nat (maxA - attempts)" arbitrary: attempts w)
  case 0
  then have "\<not> attempts < maxA" by simp
  then show ?case
    by (simp add: waitForCompletion_loop.simps [of _ _ _ _ _ attempts] poll_core.simps [of _ _ _ _ _ _ _ _ attempts])
next
  case (Suc n)
  then have lt: "attempts < maxA" and n: "n = nat (maxA - (attempts + 1))" by simp_all
  show ?case
    apply (subst waitForCompletion_loop.simps)
    apply (subst poll_core.simps)
    apply (simp add: call_status_def Let_def Suc.hyps(1) [OF n] split: sum.splits)
    done
qed

lemma core_timeout:
  "\<not> attempts < maxA \<Longrightarrow> poll_core srv sid cb ev proj tmo interval maxA attempts w = (Inl tmo, w)"
  by (simp add: poll_core.simps)

lemma core_round:
  assumes "attempts < maxA" "status_endpoint srv sid (status_calls w) = Inr st"
    "status st \<noteq> ''completed''" "status st \<noteq> ''failed''"
  shows "poll_core srv sid cb ev proj tmo interval maxA attempts w =
         poll_core srv sid cb ev proj tmo interval maxA (attempts + 1) (round sid cb ev proj interval st w)"
  using assms by (subst poll_core.simps) (simp add: call_status_def round_def)

lemma core_completed:
  assumes "attempts < maxA" "status_endpoint srv sid (status_calls w) = Inr st"
    "status st = ''completed''"
  shows "poll_core srv sid cb ev proj tmo interval maxA attempts w =
         call_report srv sid (notify cb (ev st) (proj st)
           (w\<lparr>status_calls := Suc (status_calls w), trace := trace w @ [StatusCall sid]\<rparr>))"
  using assms by (subst poll_core.simps) (simp add: call_status_def)

lemma core_failed:
  assumes "attempts < maxA" "status_endpoint srv sid (status_calls w) = Inr st"
    "status st = ''failed''"
  shows "poll_core srv sid cb ev proj tmo interval maxA attempts w =
         (Inl (ApiError (or_else (error_message st) ''Processing failed'') 500),
          notify cb (ev st) (proj st)
           (w\<lparr>status_calls := Suc (status_calls w), trace := trace w @ [StatusCall sid]\<rparr>))"
  using assms by (subst poll_core.simps) (simp add: call_status_def)

lemma core_transport:
  assumes "attempts < maxA" "status_endpoint srv sid (status_calls w) = Inl e"
  shows "poll_core srv sid cb ev proj tmo interval maxA attempts w =
         (Inl e, w\<lparr>status_calls := Suc (status_calls w), trace := trace w @ [StatusCall sid]\<rparr>)"
  using assms by (subst poll_core.simps) (simp add: call_status_def)

lemma round_simps:
  "status_calls (round sid cb ev proj interval st w) = Suc (status_calls w)"
  "report_calls (round sid cb ev proj interval st w) = report_calls w"
  "create_calls (round sid cb ev proj interval st w) = create_calls w"
  "trace (round sid cb ev proj interval st w) =
     trace w @ StatusCall sid # cb_events cb (ev st) @ [Sleep interval]"
  "caller (round sid cb ev proj interval st w) = cb_apply cb (proj st) (caller w)"
  by (simp_all add: round_def sleep_def notify_def cb_events_def cb_apply_def split: option.splits)

lemma rounds_simps:
  "status_calls (rounds sid cb ev proj interval sts w) = status_calls w + length sts"
  "report_calls (rounds sid cb ev proj interval sts w) = report_calls w"
  "create_calls (rounds sid cb ev proj interval sts w) = create_calls w"
  "trace (rounds sid cb ev proj interval sts w) =
     trace w @ concat (map (\<lambda>st. StatusCall sid # cb_events cb (ev st) @ [Sleep interval]) sts)"
  "caller (rounds sid cb ev proj interval sts w) =
     foldl (\<lambda>c st. cb_apply cb (proj st) c) (caller w) sts"
  by (induction sts arbitrary: w; simp add: round_simps)+

lemma core_skip:
  assumes "map (status_endpoint srv sid) [status_calls w ..< status_calls w + length sts] = map Inr sts"
    and "\<forall>st \<in> set sts. status st \<noteq> ''completed'' \<and> status st \<noteq> ''failed''"
    and "attempts + int (length sts) \<le> maxA"
  shows "poll_core srv sid cb ev proj tmo interval maxA attempts w =
         poll_core srv sid cb ev proj tmo interval maxA (attempts + int (length sts))
           (rounds sid cb ev proj interval sts w)"
  using assms
proof (induction sts arbitrary: attempts w)
  case Nil
  then show ?case by simp
next
  case (Cons st sts)
  let ?w = "round sid cb ev proj interval st w"
  have upt: "[status_calls w ..< status_calls w + length (st # sts)] =
      status_calls w # [Suc (status_calls w) ..< Suc (status_calls w) + length sts]"
    by (simp add: upt_conv_Cons del: upt_Suc)
  from Cons.prems(1) have hd: "status_endpoint srv sid (status_calls w) = Inr st"
    and tl: "map (status_endpoint srv sid) [status_calls ?w ..< status_calls ?w + length sts] = map Inr sts"
    unfolding upt by (simp_all add: round_simps)
  from Cons.prems have lt: "attempts < maxA" by simp
  have "poll_core srv sid cb ev proj tmo interval maxA attempts w =
        poll_core srv sid cb ev proj tmo interval maxA (attempts + 1) ?w"
    using core_round [OF lt hd] Cons.prems(2) by simp
  also have "\<dots> = poll_core srv sid cb ev proj tmo interval maxA (attempts + 1 + int (length sts))
           (rounds sid cb ev proj interval sts ?w)"
    using Cons.IH [OF tl, of "attempts + 1"] Cons.prems by simp
  also have "attempts + 1 + int (length sts) = attempts + int (length (st # sts))" by simp
  finally show ?case by simp
qed

lemma pollSessionStatus_core:
  "pollSessionStatus srv sid cb io mo w =
   poll_core srv sid cb (\<lambda>st. ProgressStatus (status st)) status
     (ApiError ''Processing timed out'' 408) (param 1000 io) (param 120 mo) 0 w"
  by (simp add: pollSessionStatus_def pollSessionStatus_loop_core)

lemma waitForCompletion_core:
  "waitForCompletion srv sid cb mo io w =
   poll_core srv sid cb ProgressResponse (\<lambda>st. st)
     (ApiError ''Timeout waiting for processing to complete'' 408) (param 2000 io) (param 60 mo) 0 w"
  by (simp add: waitForCompletion_def waitForCompletion_loop_core)

lemma replies_split:
  assumes "map (status_endpoint srv sid) [a ..< a + length (pre @ [fin])] = map Inr (pre @ [fin])"
  shows "map (status_endpoint srv sid) [a ..< a + length pre] = map Inr pre"
    and "status_endpoint srv sid (a + length pre) = Inr fin"
  using assms by simp_all

lemma core_completes:
  assumes replies: "map (status_endpoint srv sid)
        [status_calls w ..< status_calls w + length (pre @ [fin])] = map Inr (pre @ [fin])"
    and pre: "\<forall>st \<in> set pre. status st \<noteq> ''completed'' \<and> status st \<noteq> ''failed''"
    and fin: "status fin = ''completed''"
    and budget: "int (length (pre @ [fin])) \<le> maxA"
  shows "\<exists>w'. poll_core srv sid cb ev proj tmo interval maxA 0 w =
            (report_endpoint srv sid (report_calls w), w')
       \<and> report_calls w' = report_calls w + 1
       \<and> status_calls w' = status_calls w + length (pre @ [fin])
       \<and> create_calls w' = create_calls w
       \<and> trace w' = trace w
           @ concat (map (\<lambda>st. StatusCall sid # cb_events cb (ev st) @ [Sleep interval]) pre)
           @ StatusCall sid # cb_events cb (ev fin) @ [ReportCall sid]
       \<and> caller w' = foldl (\<lambda>c st. cb_apply cb (proj st) c) (caller w) (pre @ [fin])"
proof -
  let ?w = "rounds sid cb ev proj interval pre w"
  have skip: "poll_core srv sid cb ev proj tmo interval maxA 0 w =
      poll_core srv sid cb ev proj tmo interval maxA (0 + int (length pre)) ?w"
    using budget by (intro core_skip replies_split(1) [OF replies] pre) simp
  have last: "status_endpoint srv sid (status_calls ?w) = Inr fin"
    using replies_split(2) [OF replies] by (simp add: rounds_simps)
  have lt: "0 + int (length pre) < maxA" using budget by simp
  show ?thesis
    unfolding skip core_completed [OF lt last fin]
    by (simp add: call_report_def notify_def rounds_simps cb_events_def cb_apply_def
        split: option.splits)
qed

lemma core_fails:
  assumes replies: "map (status_endpoint srv sid)
        [status_calls w ..< status_calls w + length (pre @ [fin])] = map Inr (pre @ [fin])"
    and pre: "\<forall>st \<in> set pre. status st \<noteq> ''completed'' \<and> status st \<noteq> ''failed''"
    and fin: "status fin = ''failed''"
    and budget: "int (length (pre @ [fin])) \<le> maxA"
  shows "\<exists>w'. poll_core srv sid cb ev proj tmo interval maxA 0 w =
            (Inl (ApiError (or_else (error_message fin) ''Processing failed'') 500), w')
       \<and> report_calls w' = report_calls w
       \<and> status_calls w' = status_calls w + length (pre @ [fin])
       \<and> create_calls w' = create_calls w
       \<and> trace w' = trace w
           @ concat (map (\<lambda>st. StatusCall sid # cb_events cb (ev st) @ [Sleep interval]) pre)
           @ StatusCall sid # cb_events cb (ev fin)
       \<and> caller w' = foldl (\<lambda>c st. cb_apply cb (proj st) c) (caller w) (pre @ [fin])"
proof -
  let ?w = "rounds sid cb ev proj interval pre w"
  have skip: "poll_core srv sid cb ev proj tmo interval maxA 0 w =
      poll_core srv sid cb ev proj tmo interval maxA (0 + int (length pre)) ?w"
    using budget by (intro core_skip replies_split(1) [OF replies] pre) simp
  have last: "status_endpoint srv sid (status_calls ?w) = Inr fin"
    using replies_split(2) [OF replies] by (simp add: rounds_simps)
  have lt: "0 + int (length pre) < maxA" using budget by simp
  show ?thesis
    unfolding skip core_failed [OF lt last fin]
    by (simp add: notify_def rounds_simps cb_events_def cb_apply_def split: option.splits)
qed

lemma core_times_out:
  assumes replies: "map (status_endpoint srv sid)
        [status_calls w ..< status_calls w + length sts] = map Inr sts"
    and sts: "\<forall>st \<in> set sts. status st \<noteq> ''completed'' \<and> status st \<noteq> ''failed''"
    and len: "length sts = nat maxA"
  shows "poll_core srv sid cb ev proj tmo interval maxA 0 w =
           (Inl tmo, rounds sid cb ev proj interval sts w)"
proof (cases "0 < maxA")
  case False
  with len have "sts = []" by simp
  with False show ?thesis by (simp add: core_timeout)
next
  case True
  with len have eq: "0 + int (length sts) = maxA" by simp
  have "poll_core srv sid cb ev proj tmo interval maxA 0 w =
      poll_core srv sid cb ev proj tmo interval maxA (0 + int (length sts))
        (rounds sid cb ev proj interval sts w)"
    using eq by (intro core_skip replies sts) simp
  then show ?thesis unfolding eq by (simp add: core_timeout)
qed

lemma core_calls_mono:
  "status_calls w \<le> status_calls (snd (poll_core srv sid cb ev proj tmo interval maxA attempts w))"
proof (induction "nat (maxA - attempts)" arbitrary: attempts w)
  case 0
  then show ?case by (simp add: core_timeout)
next
  case (Suc n)
  then have lt: "attempts < maxA" and n: "n = nat (maxA - (attempts + 1))" by simp_all
  show ?case
  proof (cases "status_endpoint srv sid (status_calls w)")
    case (Inl e)
    then show ?thesis by (simp add: core_transport [OF lt])
  next
    case (Inr st)
    consider "status st = ''completed''" | "status st = ''failed''"
      | "status st \<noteq> ''completed''" "status st \<noteq> ''failed''" by blast
    then show ?thesis
    proof cases
      case 1
      then show ?thesis
        by (simp add: core_completed [OF lt Inr] call_report_def notify_def split: option.splits)
    next
      case 2
      then show ?thesis
        by (simp add: core_failed [OF lt Inr] notify_def split: option.splits)
    next
      case 3
      have "status_calls (round sid cb ev proj interval st w)
          \<le> status_calls (snd (poll_core srv sid cb ev proj tmo interval maxA (attempts + 1)
               (round sid cb ev proj interval st w)))"
        by (rule Suc.hyps(1) [OF n])
      then show ?thesis
        by (simp add: core_round [OF lt Inr 3] round_simps)
    qed
  qed
qed

lemma core_alternation:
  assumes srv: "\<forall>n. status_endpoint srv sid n = Inr (rep n)"
    and ev: "\<forall>st. is_poll_event (ev st)"
  shows "filter is_poll_event (trace (snd (poll_core srv sid cb ev proj tmo interval maxA attempts w))) =
           filter is_poll_event (trace w)
           @ concat (map (\<lambda>n. StatusCall sid # cb_events cb (ev (rep n)))
               [status_calls w ..< status_calls (snd (poll_core srv sid cb ev proj tmo interval maxA attempts w))])
       \<and> caller (snd (poll_core srv sid cb ev proj tmo interval maxA attempts w)) =
           foldl (\<lambda>c n. cb_apply cb (proj (rep n)) c) (caller w)
               [status_calls w ..< status_calls (snd (poll_core srv sid cb ev proj tmo interval maxA attempts w))]"
proof (induction "nat (maxA - attempts)" arbitrary: attempts w)
  case 0
  then show ?case by (simp add: core_timeout)
next
  case (Suc n)
  then have lt: "attempts < maxA" and n: "n = nat (maxA - (attempts + 1))" by simp_all
  let ?st = "rep (status_calls w)"
  have r: "status_endpoint srv sid (status_calls w) = Inr ?st" using srv by simp
  have evs: "filter is_poll_event (cb_events cb (ev st)) = cb_events cb (ev st)" for st
    using ev by (simp add: cb_events_def split: option.splits)
  consider "status ?st = ''completed''" | "status ?st = ''failed''"
    | "status ?st \<noteq> ''completed''" "status ?st \<noteq> ''failed''" by blast
  then show ?case
  proof cases
    case 1
    then show ?thesis using ev
      by (simp add: core_completed [OF lt r] call_report_def notify_def cb_events_def cb_apply_def
          split: option.splits)
  next
    case 2
    then show ?thesis using ev
      by (simp add: core_failed [OF lt r] notify_def cb_events_def cb_apply_def split: option.splits)
  next
    case 3
    let ?w = "round sid cb ev proj interval ?st w"
    let ?w' = "snd (poll_core srv sid cb ev proj tmo interval maxA (attempts + 1) ?w)"
    have eq: "poll_core srv sid cb ev proj tmo interval maxA attempts w =
        poll_core srv sid cb ev proj tmo interval maxA (attempts + 1) ?w"
      by (rule core_round [OF lt r 3])
    have "status_calls ?w \<le> status_calls ?w'" by (rule core_calls_mono)
    then have upt: "[status_calls w ..< status_calls ?w'] =
        status_calls w # [status_calls ?w ..< status_calls ?w']"
      by (simp add: round_simps upt_conv_Cons)
    from Suc.hyps(1) [OF n, of ?w] show ?thesis
      unfolding eq upt by (simp add: round_simps evs)
  qed
qed

section \<open>The claims about the pollers\<close>

text \<open>
  C1. Whenever the responses polled are \<open>pre @ [fin]\<close>, at most \<open>maxAttempts\<close> of them,
  with every element of \<open>pre\<close> pending or processing and \<open>fin\<close> completed, each poller
  calls the report endpoint exactly once, as its last action and right after the
  (single) completed observation and its callback, and returns what that call returned.
\<close>

theorem completed_returns_report_fetched_once:
  assumes "map (status_endpoint srv sid)
        [status_calls w ..< status_calls w + length (pre @ [fin])] = map Inr (pre @ [fin])"
    and "\<forall>st \<in> set pre. status st = ''pending'' \<or> status st = ''processing''"
    and "status fin = ''completed''"
    and "int (length (pre @ [fin])) \<le> param 120 maxAttempts"
    and "int (length (pre @ [fin])) \<le> param 60 maxAttempts'"
  shows "(\<exists>w'. pollSessionStatus srv sid onProgress interval maxAttempts w =
              (report_endpoint srv sid (report_calls w), w')
          \<and> report_calls w' = report_calls w + 1
          \<and> status_calls w' = status_calls w + length (pre @ [fin])
          \<and> trace w' = trace w
              @ concat (map (\<lambda>st. StatusCall sid # cb_events onProgress (ProgressStatus (status st))
                                  @ [Sleep (param 1000 interval)]) pre)
              @ StatusCall sid # cb_events onProgress (ProgressStatus ''completed'') @ [ReportCall sid])
       \<and> (\<exists>w'. waitForCompletion srv sid onProgress' maxAttempts' intervalMs w =
              (report_endpoint srv sid (report_calls w), w')
          \<and> report_calls w' = report_calls w + 1
          \<and> status_calls w' = status_calls w + length (pre @ [fin])
          \<and> trace w' = trace w
              @ concat (map (\<lambda>st. StatusCall sid # cb_events onProgress' (ProgressResponse st)
                                  @ [Sleep (param 2000 intervalMs)]) pre)
              @ StatusCall sid # cb_events onProgress' (ProgressResponse fin) @ [ReportCall sid])"
proof -
  have pre: "\<forall>st \<in> set pre. status st \<noteq> ''completed'' \<and> status st \<noteq> ''failed''"
    using assms(2) by auto
  have "\<exists>w'. pollSessionStatus srv sid onProgress interval maxAttempts w =
              (report_endpoint srv sid (report_calls w), w')
          \<and> report_calls w' = report_calls w + 1
          \<and> status_calls w' = status_calls w + length (pre @ [fin])
          \<and> trace w' = trace w
              @ concat (map (\<lambda>st. StatusCall sid # cb_events onProgress (ProgressStatus (status st))
                                  @ [Sleep (param 1000 interval)]) pre)
              @ StatusCall sid # cb_events onProgress (ProgressStatus ''completed'') @ [ReportCall sid]"
    using core_completes [OF assms(1) pre assms(3) assms(4), of onProgress
        "\<lambda>st. ProgressStatus (status st)" status "ApiError ''Processing timed out'' 408"
        "param 1000 interval"] assms(3)
    unfolding pollSessionStatus_core by auto
  moreover have "\<exists>w'. waitForCompletion srv sid onProgress' maxAttempts' intervalMs w =
              (report_endpoint srv sid (report_calls w), w')
          \<and> report_calls w' = report_calls w + 1
          \<and> status_calls w' = status_calls w + length (pre @ [fin])
          \<and> trace w' = trace w
              @ concat (map (\<lambda>st. StatusCall sid # cb_events onProgress' (ProgressResponse st)
                                  @ [Sleep (param 2000 intervalMs)]) pre)
              @ StatusCall sid # cb_events onProgress' (ProgressResponse fin) @ [ReportCall sid]"
    using core_completes [OF assms(1) pre assms(3) assms(5), of onProgress'
        ProgressResponse "\<lambda>st. st" "ApiError ''Timeout waiting for processing to complete'' 408"
        "param 2000 intervalMs"]
    unfolding waitForCompletion_core by auto
  ultimately show ?thesis by blast
qed

theorem completed_returns_report_fetched_once_witness:
  "fst (pollSessionStatus (scripted [reply ''processing'', reply ''processing'', reply ''completed''])
          ''abc'' (Some (\<lambda>s c. c @ [s])) None None (fresh [])) = Inr ''report of abc''
   \<and> report_calls (snd (pollSessionStatus
          (scripted [reply ''processing'', reply ''processing'', reply ''completed''])
          ''abc'' (Some (\<lambda>s c. c @ [s])) None None (fresh []))) = 1
   \<and> fst (waitForCompletion (scripted [reply ''processing'', reply ''processing'', reply ''completed''])
          ''abc'' (Some (\<lambda>st c. c @ [status st])) None None (fresh [])) = Inr ''report of abc''
   \<and> report_calls (snd (waitForCompletion
          (scripted [reply ''processing'', reply ''processing'', reply ''completed''])
          ''abc'' (Some (\<lambda>st c. c @ [status st])) None None (fresh []))) = 1"
  using completed_returns_report_fetched_once
    [where srv = "scripted [reply ''processing'', reply ''processing'', reply ''completed'']"
       and sid = "''abc''" and w = "fresh []"
       and pre = "[reply ''processing'', reply ''processing'']" and fin = "reply ''completed''"
       and maxAttempts = None and maxAttempts' = None
       and onProgress = "Some (\<lambda>s c. c @ [s])" and interval = None
       and onProgress' = "Some (\<lambda>st c. c @ [status st])" and intervalMs = None]
  by (auto simp: scripted_def fresh_def reply_def upt_rec)

text \<open>
  C2. Whenever the responses polled (so at most \<open>maxAttempts\<close> of them) are \<open>pre @ [fin]\<close>
  with \<open>fin\<close> failed and no element of \<open>pre\<close> completed or failed, each poller raises the
  \<^verbatim>\<open>ApiError\<close> with status 500 that carries the server's error message, or
  \<open>Processing failed\<close> when the message is null or empty, and the report endpoint is
  never called: the count of report calls is unchanged and the run ends with the failed
  observation and its callback.
\<close>

theorem failed_raises_processing_failed_without_fetch:
  assumes "map (status_endpoint srv sid)
        [status_calls w ..< status_calls w + length (pre @ [fin])] = map Inr (pre @ [fin])"
    and "\<forall>st \<in> set pre. status st \<noteq> ''completed'' \<and> status st \<noteq> ''failed''"
    and "status fin = ''failed''"
    and "int (length (pre @ [fin])) \<le> param 120 maxAttempts"
    and "int (length (pre @ [fin])) \<le> param 60 maxAttempts'"
  shows "(\<exists>w'. pollSessionStatus srv sid onProgress interval maxAttempts w =
              (Inl (ApiError (case error_message fin of
                                None \<Rightarrow> ''Processing failed''
                              | Some m \<Rightarrow> if m = [] then ''Processing failed'' else m) 500), w')
          \<and> report_calls w' = report_calls w
          \<and> trace w' = trace w
              @ concat (map (\<lambda>st. StatusCall sid # cb_events onProgress (ProgressStatus (status st))
                                  @ [Sleep (param 1000 interval)]) pre)
              @ StatusCall sid # cb_events onProgress (ProgressStatus ''failed''))
       \<and> (\<exists>w'. waitForCompletion srv sid onProgress' maxAttempts' intervalMs w =
              (Inl (ApiError (case error_message fin of
                                None \<Rightarrow> ''Processing failed''
                              | Some m \<Rightarrow> if m = [] then ''Processing failed'' else m) 500), w')
          \<and> report_calls w' = report_calls w
          \<and> trace w' = trace w
              @ concat (map (\<lambda>st. StatusCall sid # cb_events onProgress' (ProgressResponse st)
                                  @ [Sleep (param 2000 intervalMs)]) pre)
              @ StatusCall sid # cb_events onProgress' (ProgressResponse fin))"
proof -
  have "\<exists>w'. pollSessionStatus srv sid onProgress interval maxAttempts w =
              (Inl (ApiError (case error_message fin of
                                None \<Rightarrow> ''Processing failed''
                              | Some m \<Rightarrow> if m = [] then ''Processing failed'' else m) 500), w')
          \<and> report_calls w' = report_calls w
          \<and> trace w' = trace w
              @ concat (map (\<lambda>st. StatusCall sid # cb_events onProgress (ProgressStatus (status st))
                                  @ [Sleep (param 1000 interval)]) pre)
              @ StatusCall sid # cb_events onProgress (ProgressStatus ''failed'')"
    using core_fails [OF assms(1) assms(2) assms(3) assms(4), of onProgress
        "\<lambda>st. ProgressStatus (status st)" status "ApiError ''Processing timed out'' 408"
        "param 1000 interval"] assms(3)
    unfolding pollSessionStatus_core or_else_def by auto
  moreover have "\<exists>w'. waitForCompletion srv sid onProgress' maxAttempts' intervalMs w =
              (Inl (ApiError (case error_message fin of
                                None \<Rightarrow> ''Processing failed''
                              | Some m \<Rightarrow> if m = [] then ''Processing failed'' else m) 500), w')
          \<and> report_calls w' = report_calls w
          \<and> trace w' = trace w
              @ concat (map (\<lambda>st. StatusCall sid # cb_events onProgress' (ProgressResponse st)
                                  @ [Sleep (param 2000 intervalMs)]) pre)
              @ StatusCall sid # cb_events onProgress' (ProgressResponse fin)"
    using core_fails [OF assms(1) assms(2) assms(3) assms(5), of onProgress'
        ProgressResponse "\<lambda>st. st" "ApiError ''Timeout waiting for processing to complete'' 408"
        "param 2000 intervalMs"]
    unfolding waitForCompletion_core or_else_def by auto
  ultimately show ?thesis by blast
qed

theorem failed_raises_processing_failed_without_fetch_witness:
  "fst (pollSessionStatus
      (scripted [reply ''pending'', \<lparr>status = ''failed'', error_message = Some ''Audio too short''\<rparr>])
      ''abc'' None None None (fresh ())) = Inl (ApiError ''Audio too short'' 500)
   \<and> trace (snd (pollSessionStatus
      (scripted [reply ''pending'', \<lparr>status = ''failed'', error_message = Some ''Audio too short''\<rparr>])
      ''abc'' None None None (fresh ()))) = [StatusCall ''abc'', Sleep 1000, StatusCall ''abc'']
   \<and> fst (pollSessionStatus (scripted [reply ''failed'']) ''abc'' None None None (fresh ()))
     = Inl (ApiError ''Processing failed'' 500)
   \<and> report_calls (snd (pollSessionStatus (scripted [reply ''failed'']) ''abc'' None None None
        (fresh ()))) = 0
   \<and> fst (waitForCompletion
      (scripted [reply ''pending'', \<lparr>status = ''failed'', error_message = Some ''Audio too short''\<rparr>])
      ''abc'' None None None (fresh ())) = Inl (ApiError ''Audio too short'' 500)"
  using failed_raises_processing_failed_without_fetch
    [where srv = "scripted [reply ''pending'', \<lparr>status = ''failed'', error_message = Some ''Audio too short''\<rparr>]"
       and sid = "''abc''" and w = "fresh ()"
       and pre = "[reply ''pending'']"
       and fin = "\<lparr>status = ''failed'', error_message = Some ''Audio too short''\<rparr>"
       and maxAttempts = None and maxAttempts' = None
       and onProgress = None and interval = None
       and onProgress' = None and intervalMs = None]
    failed_raises_processing_failed_without_fetch
    [where srv = "scripted [reply ''failed'']"
       and sid = "''abc''" and w = "fresh ()"
       and pre = "[]" and fin = "reply ''failed''"
       and maxAttempts = None and maxAttempts' = None
       and onProgress = None and interval = None
       and onProgress' = None and intervalMs = None]
  by (auto simp: scripted_def fresh_def reply_def upt_rec cb_events_def)

text \<open>
  C3. Whenever the \<open>maxAttempts\<close> responses polled are all pending or processing, each
  poller raises its timeout \<^verbatim>\<open>ApiError\<close> after exactly \<open>maxAttempts\<close> status calls and
  no report call. The timeout error has HTTP status 408, so it differs from every
  error of the form \<open>ApiError m 500\<close>, the form of the processing-failed error.
\<close>

theorem all_pending_times_out:
  assumes "map (status_endpoint srv sid)
        [status_calls w ..< status_calls w + length sts] = map Inr sts"
    and "\<forall>st \<in> set sts. status st = ''pending'' \<or> status st = ''processing''"
    and "length sts = nat (param 120 maxAttempts)"
    and "length sts = nat (param 60 maxAttempts')"
  shows "(\<exists>e w'. pollSessionStatus srv sid onProgress interval maxAttempts w = (Inl e, w')
          \<and> e = ApiError ''Processing timed out'' 408
          \<and> status_calls w' = status_calls w + nat (param 120 maxAttempts)
          \<and> report_calls w' = report_calls w
          \<and> http_status e = Some 408 \<and> (\<forall>m. e \<noteq> ApiError m 500))
       \<and> (\<exists>e w'. waitForCompletion srv sid onProgress' maxAttempts' intervalMs w = (Inl e, w')
          \<and> e = ApiError ''Timeout waiting for processing to complete'' 408
          \<and> status_calls w' = status_calls w + nat (param 60 maxAttempts')
          \<and> report_calls w' = report_calls w
          \<and> http_status e = Some 408 \<and> (\<forall>m. e \<noteq> ApiError m 500))"
proof -
  have sts: "\<forall>st \<in> set sts. status st \<noteq> ''completed'' \<and> status st \<noteq> ''failed''"
    using assms(2) by auto
  show ?thesis
    unfolding pollSessionStatus_core waitForCompletion_core
      core_times_out [OF assms(1) sts assms(3)] core_times_out [OF assms(1) sts assms(4)]
    using assms(3,4) by (simp add: rounds_simps)
qed

theorem all_pending_times_out_witness:
  "fst (pollSessionStatus (always ''pending'') ''abc'' None (Some 10) (Some 2) (fresh ()))
     = Inl (ApiError ''Processing timed out'' 408)
   \<and> status_calls (snd (pollSessionStatus (always ''pending'') ''abc'' None (Some 10) (Some 2)
        (fresh ()))) = 2
   \<and> report_calls (snd (pollSessionStatus (always ''pending'') ''abc'' None (Some 10) (Some 2)
        (fresh ()))) = 0
   \<and> fst (waitForCompletion (always ''pending'') ''abc'' None (Some 2) (Some 10) (fresh ()))
     = Inl (ApiError ''Timeout waiting for processing to complete'' 408)
   \<and> status_calls (snd (waitForCompletion (always ''pending'') ''abc'' None (Some 2) (Some 10)
        (fresh ()))) = 2"
  using all_pending_times_out
    [where srv = "always ''pending''" and sid = "''abc''" and w = "fresh ()"
       and sts = "[reply ''pending'', reply ''pending'']"
       and maxAttempts = "Some 2" and maxAttempts' = "Some 2"
       and onProgress = None and interval = "Some 10"
       and onProgress' = None and intervalMs = "Some 10"]
  by (auto simp: always_def fresh_def reply_def upt_rec)

text \<open>
  C10. With \<open>maxAttempts \<le> 0\<close> each poller raises its timeout error at once and leaves
  the world as it was: no status call, no report call, no callback.
\<close>

theorem nonpositive_budget_times_out_at_once:
  assumes "maxAttempts \<le> 0"
  shows "pollSessionStatus srv sid onProgress interval (Some maxAttempts) w =
           (Inl (ApiError ''Processing timed out'' 408), w)
       \<and> waitForCompletion srv sid onProgress' (Some maxAttempts) intervalMs w =
           (Inl (ApiError ''Timeout waiting for processing to complete'' 408), w)"
  using assms by (simp add: pollSessionStatus_core waitForCompletion_core core_timeout)

theorem nonpositive_budget_times_out_at_once_witness:
  "(0::int) \<le> 0
   \<and> pollSessionStatus (always ''completed'') ''abc'' (Some (\<lambda>s c. c @ [s])) None (Some 0) (fresh [])
       = (Inl (ApiError ''Processing timed out'' 408), fresh [])
   \<and> waitForCompletion (always ''completed'') ''abc'' (Some (\<lambda>st c. c @ [status st])) (Some 0) None
         (fresh [])
       = (Inl (ApiError ''Timeout waiting for processing to complete'' 408), fresh [])"
  using nonpositive_budget_times_out_at_once
    [where maxAttempts = 0 and srv = "always ''completed''" and sid = "''abc''" and w = "fresh []"
       and onProgress = "Some (\<lambda>s c. c @ [s])" and interval = None
       and onProgress' = "Some (\<lambda>st c. c @ [status st])" and intervalMs = None]
  by simp

lemma replies_always:
  "map (status_endpoint (always s) sid) [a ..< a + length (replicate k (reply s))] =
   map Inr (replicate k (reply s))"
  by (simp add: always_def map_replicate_const)

text \<open>
  C7, the claim as stated fails: a server that always answers with the unexpected
  status \<open>archived\<close>, polled with \<open>maxAttempts = 3\<close>. Neither poller stops at the first
  observation; both make all three status calls and end with the timeout error.
\<close>

theorem unexpected_status_counterexample:
  "fst (pollSessionStatus (always ''archived'') ''abc'' None None (Some 3) (fresh ()))
     = Inl (ApiError ''Processing timed out'' 408)
   \<and> status_calls (snd (pollSessionStatus (always ''archived'') ''abc'' None None (Some 3)
        (fresh ()))) = 3
   \<and> trace (snd (pollSessionStatus (always ''archived'') ''abc'' None None (Some 3) (fresh ())))
     = [StatusCall ''abc'', Sleep 1000, StatusCall ''abc'', Sleep 1000,
        StatusCall ''abc'', Sleep 1000]
   \<and> fst (waitForCompletion (always ''archived'') ''abc'' None (Some 3) None (fresh ()))
     = Inl (ApiError ''Timeout waiting for processing to complete'' 408)
   \<and> status_calls (snd (waitForCompletion (always ''archived'') ''abc'' None (Some 3) None
        (fresh ()))) = 3"
proof -
  have sts: "\<forall>st \<in> set (replicate 3 (reply ''archived'')).
      status st \<noteq> ''completed'' \<and> status st \<noteq> ''failed''"
    by (simp add: reply_def)
  have len: "length (replicate 3 (reply ''archived'')) = nat (param d (Some 3))" for d
    by simp
  show ?thesis
    unfolding pollSessionStatus_core waitForCompletion_core
      core_times_out [OF replies_always sts len]
    by (simp add: round_simps fresh_def cb_events_def numeral_3_eq_3)
qed

text \<open>
  C7, as amended. A status that is neither completed nor failed, expected or not, is
  handled as pending is: it is passed to the callback, the poller sleeps and polls
  again. When none of the \<open>maxAttempts\<close> responses is completed or failed, each poller
  ends with its timeout error after \<open>maxAttempts\<close> status calls and no report call.
\<close>

theorem unexpected_status_is_polled_again:
  assumes "map (status_endpoint srv sid)
        [status_calls w ..< status_calls w + length sts] = map Inr sts"
    and "\<forall>st \<in> set sts. status st \<noteq> ''completed'' \<and> status st \<noteq> ''failed''"
    and "length sts = nat (param 120 maxAttempts)"
    and "length sts = nat (param 60 maxAttempts')"
  shows "(\<exists>w'. pollSessionStatus srv sid onProgress interval maxAttempts w =
              (Inl (ApiError ''Processing timed out'' 408), w')
          \<and> status_calls w' = status_calls w + length sts
          \<and> report_calls w' = report_calls w
          \<and> trace w' = trace w
              @ concat (map (\<lambda>st. StatusCall sid # cb_events onProgress (ProgressStatus (status st))
                                  @ [Sleep (param 1000 interval)]) sts))
       \<and> (\<exists>w'. waitForCompletion srv sid onProgress' maxAttempts' intervalMs w =
              (Inl (ApiError ''Timeout waiting for processing to complete'' 408), w')
          \<and> status_calls w' = status_calls w + length sts
          \<and> report_calls w' = report_calls w
          \<and> trace w' = trace w
              @ concat (map (\<lambda>st. StatusCall sid # cb_events onProgress' (ProgressResponse st)
                                  @ [Sleep (param 2000 intervalMs)]) sts))"
  unfolding pollSessionStatus_core waitForCompletion_core
    core_times_out [OF assms(1) assms(2) assms(3)] core_times_out [OF assms(1) assms(2) assms(4)]
  by (simp add: rounds_simps)

theorem unexpected_status_is_polled_again_witness:
  "fst (pollSessionStatus (scripted [reply ''archived'', reply ''pending'']) ''abc''
          (Some (\<lambda>s c. c @ [s])) None (Some 2) (fresh []))
     = Inl (ApiError ''Processing timed out'' 408)
   \<and> trace (snd (pollSessionStatus (scripted [reply ''archived'', reply ''pending'']) ''abc''
          (Some (\<lambda>s c. c @ [s])) None (Some 2) (fresh [])))
     = [StatusCall ''abc'', ProgressStatus ''archived'', Sleep 1000,
        StatusCall ''abc'', ProgressStatus ''pending'', Sleep 1000]
   \<and> status_calls (snd (waitForCompletion (scripted [reply ''archived'', reply ''pending''])
          ''abc'' (Some (\<lambda>st c. c @ [status st])) (Some 2) None (fresh []))) = 2"
  using unexpected_status_is_polled_again
    [where srv = "scripted [reply ''archived'', reply ''pending'']"
       and sid = "''abc''" and w = "fresh []"
       and sts = "[reply ''archived'', reply ''pending'']"
       and maxAttempts = "Some 2" and maxAttempts' = "Some 2"
       and onProgress = "Some (\<lambda>s c. c @ [s])" and interval = None
       and onProgress' = "Some (\<lambda>st c. c @ [status st])" and intervalMs = None]
  by (auto simp: scripted_def fresh_def reply_def upt_rec cb_events_def)

text \<open>
  C5. Let the server answer the \<open>n\<close>-th status call with the response \<open>rep n\<close>. The
  status calls of a run are those numbered from \<open>status_calls w\<close> up to the count at
  resolution. Restricted to status calls and callback invocations, the trace of the run
  is, for each of these calls in order, the call followed by one callback invocation
  with the status it observed (no invocation when no callback was passed); and the
  caller's state at resolution is the callback applied to exactly these statuses in
  order. The last attempt, the terminal one included, is among them, and the world
  returned is the world at resolution, so the run has no later event.
\<close>

theorem progress_once_per_attempt_in_order:
  assumes "\<forall>n. status_endpoint srv sid n = Inr (rep n)"
  shows "filter is_poll_event
           (trace (snd (pollSessionStatus srv sid onProgress interval maxAttempts w))) =
         filter is_poll_event (trace w)
           @ concat (map (\<lambda>n. StatusCall sid # cb_events onProgress (ProgressStatus (status (rep n))))
               [status_calls w ..<
                status_calls (snd (pollSessionStatus srv sid onProgress interval maxAttempts w))])
       \<and> caller (snd (pollSessionStatus srv sid onProgress interval maxAttempts w)) =
           foldl (\<lambda>c n. cb_apply onProgress (status (rep n)) c) (caller w)
               [status_calls w ..<
                status_calls (snd (pollSessionStatus srv sid onProgress interval maxAttempts w))]
       \<and> filter is_poll_event
           (trace (snd (waitForCompletion srv sid onProgress' maxAttempts' intervalMs w))) =
         filter is_poll_event (trace w)
           @ concat (map (\<lambda>n. StatusCall sid # cb_events onProgress' (ProgressResponse (rep n)))
               [status_calls w ..<
                status_calls (snd (waitForCompletion srv sid onProgress' maxAttempts' intervalMs w))])
       \<and> caller (snd (waitForCompletion srv sid onProgress' maxAttempts' intervalMs w)) =
           foldl (\<lambda>c n. cb_apply onProgress' (rep n) c) (caller w)
               [status_calls w ..<
                status_calls (snd (waitForCompletion srv sid onProgress' maxAttempts' intervalMs w))]"
  unfolding pollSessionStatus_core waitForCompletion_core
  using core_alternation [OF assms, of "\<lambda>st. ProgressStatus (status st)" onProgress status
      "ApiError ''Processing timed out'' 408" "param 1000 interval" "param 120 maxAttempts" 0 w]
    core_alternation [OF assms, of ProgressResponse onProgress' "\<lambda>st. st"
      "ApiError ''Timeout waiting for processing to complete'' 408" "param 2000 intervalMs"
      "param 60 maxAttempts'" 0 w]
  by simp

theorem progress_once_per_attempt_in_order_witness:
  "caller (snd (pollSessionStatus (completing_after 2) ''abc'' (Some (\<lambda>s c. c @ [s])) None None
      (fresh []))) = [''processing'', ''processing'', ''completed'']
   \<and> filter is_poll_event (trace (snd (pollSessionStatus (completing_after 2) ''abc''
      (Some (\<lambda>s c. c @ [s])) None None (fresh [])))) =
     [StatusCall ''abc'', ProgressStatus ''processing'',
      StatusCall ''abc'', ProgressStatus ''processing'',
      StatusCall ''abc'', ProgressStatus ''completed'']
   \<and> caller (snd (waitForCompletion (completing_after 2) ''abc'' (Some (\<lambda>st c. c @ [status st]))
      None None (fresh []))) = [''processing'', ''processing'', ''completed'']"
proof -
  have n: "status_calls (snd (pollSessionStatus (completing_after 2) ''abc''
      (Some (\<lambda>s c. c @ [s])) None None (fresh []))) = 3"
    "status_calls (snd (waitForCompletion (completing_after 2) ''abc''
      (Some (\<lambda>st c. c @ [status st])) None None (fresh []))) = 3"
    by (simp_all add: pollSessionStatus_def pollSessionStatus_loop.simps
        waitForCompletion_def waitForCompletion_loop.simps
        completing_after_def fresh_def reply_def call_status_def call_report_def notify_def
        sleep_def)
  show ?thesis
    using progress_once_per_attempt_in_order
      [where srv = "completing_after 2" and sid = "''abc''" and w = "fresh []"
         and rep = "\<lambda>n. reply (if n < 2 then ''processing'' else ''completed'')"
         and maxAttempts = None and maxAttempts' = None
         and onProgress = "Some (\<lambda>s c. c @ [s])" and interval = None
         and onProgress' = "Some (\<lambda>st c. c @ [status st])" and intervalMs = None]
    unfolding n
    by (simp add: completing_after_def fresh_def reply_def upt_rec cb_events_def cb_apply_def)
qed

text \<open>
  C4, the claim as stated fails for \<open>waitForCompletion\<close>: with both optional parameters
  omitted it sleeps 2000 ms between attempts, and against a server that stays pending
  it gives up after 60 status calls.
\<close>

theorem defaults_counterexample:
  "trace (snd (waitForCompletion (completing_after 1) ''abc'' None None None (fresh ())))
     = [StatusCall ''abc'', Sleep 2000, StatusCall ''abc'', ReportCall ''abc'']
   \<and> status_calls (snd (waitForCompletion (always ''pending'') ''abc'' None None None (fresh ())))
     = 60"
proof -
  have sts: "\<forall>st \<in> set (replicate 60 (reply ''pending'')).
      status st \<noteq> ''completed'' \<and> status st \<noteq> ''failed''"
    by (simp add: reply_def)
  have len: "length (replicate 60 (reply ''pending'')) = nat (param 60 None)"
    by simp
  have "status_calls (snd (waitForCompletion (always ''pending'') ''abc'' None None None (fresh ())))
     = 60"
    unfolding waitForCompletion_core core_times_out [OF replies_always sts len]
    by (simp add: rounds_simps fresh_def)
  moreover have "trace (snd (waitForCompletion (completing_after 1) ''abc'' None None None (fresh ())))
     = [StatusCall ''abc'', Sleep 2000, StatusCall ''abc'', ReportCall ''abc'']"
    by (simp add: waitForCompletion_def waitForCompletion_loop.simps
        completing_after_def fresh_def reply_def call_status_def call_report_def notify_def
        sleep_def)
  ultimately show ?thesis by simp
qed

text \<open>
  C4, as amended. An omitted interval is 1000 ms and an omitted attempt count 120 in
  \<open>pollSessionStatus\<close>; in \<open>waitForCompletion\<close> an omitted attempt count is 60 and an
  omitted interval 2000 ms.
\<close>

theorem poller_defaults:
  "pollSessionStatus srv sid onProgress None maxAttempts w =
     pollSessionStatus srv sid onProgress (Some 1000) maxAttempts w
   \<and> pollSessionStatus srv sid onProgress interval None w =
     pollSessionStatus srv sid onProgress interval (Some 120) w
   \<and> waitForCompletion srv sid onProgress' None intervalMs w =
     waitForCompletion srv sid onProgress' (Some 60) intervalMs w
   \<and> waitForCompletion srv sid onProgress' maxAttempts' None w =
     waitForCompletion srv sid onProgress' maxAttempts' (Some 2000) w"
  by (simp add: pollSessionStatus_def waitForCompletion_def)

section \<open>The claims about the record screen\<close>

text \<open>
  C8. When microphone permission is denied, \<open>handleStartRecording\<close> from the idle phase
  leaves the phase idle and sets the error to the recorder's message; \<^verbatim>\<open>setPhase\<close> is
  not called at all, so the phase never becomes recording.
\<close>

theorem denied_permission_stays_idle:
  assumes "\<not> granted plat" and "phase (caller w) = Idle"
  shows "phase (caller (handleStartRecording plat w)) = Idle
       \<and> error (caller (handleStartRecording plat w)) = Some ''Microphone permission required''
       \<and> phase_history (caller (handleStartRecording plat w)) = phase_history (caller w)
       \<and> recorder (caller (handleStartRecording plat w)) = recorder (caller w)"
  using assms
  by (simp add: handleStartRecording_def startRecording_def setError_def set_recorder_def)

theorem denied_permission_stays_idle_witness:
  "\<not> granted denying \<and> phase (caller (fresh initial_screen)) = Idle
   \<and> phase (caller (handleStartRecording denying (fresh initial_screen))) = Idle
   \<and> error (caller (handleStartRecording denying (fresh initial_screen)))
       = Some ''Microphone permission required''
   \<and> phase_history (caller (handleStartRecording denying (fresh initial_screen))) = []"
  using denied_permission_stays_idle [of denying "fresh initial_screen"]
  by (simp add: denying_def fresh_def initial_screen_def)

text \<open>
  C9. When the recorder's stop returns null, \<open>handleStopRecording\<close> sets the error,
  sets the phase to idle and returns: the only \<^verbatim>\<open>setPhase\<close> call is the one to idle, and
  no endpoint is called (no upload, no status poll, no report fetch).
\<close>

theorem no_audio_returns_to_idle:
  assumes "fst (stopRecording plat (recorder (caller w))) = Inr None"
  shows "phase (caller (handleStopRecording srv plat w)) = Idle
       \<and> error (caller (handleStopRecording srv plat w)) = Some ''No recording found''
       \<and> phase_history (caller (handleStopRecording srv plat w)) = phase_history (caller w) @ [Idle]
       \<and> create_calls (handleStopRecording srv plat w) = create_calls w
       \<and> status_calls (handleStopRecording srv plat w) = status_calls w
       \<and> report_calls (handleStopRecording srv plat w) = report_calls w
       \<and> trace (handleStopRecording srv plat w) = trace w"
proof -
  obtain r where "stopRecording plat (recorder (caller w)) = (Inr None, r)"
    using assms by (cases "stopRecording plat (recorder (caller w))") simp
  then show ?thesis
    by (simp add: handleStopRecording_def setPhase_def setError_def set_recorder_def)
qed

theorem no_audio_returns_to_idle_witness:
  "fst (stopRecording (recording_to None)
         (recorder (caller (handleStartRecording (recording_to None) (fresh initial_screen)))))
     = Inr None
   \<and> phase (caller (handleStartRecording (recording_to None) (fresh initial_screen))) = Recording
   \<and> phase (caller (handleStopRecording (always ''completed'') (recording_to None)
       (handleStartRecording (recording_to None) (fresh initial_screen)))) = Idle
   \<and> error (caller (handleStopRecording (always ''completed'') (recording_to None)
       (handleStartRecording (recording_to None) (fresh initial_screen)))) = Some ''No recording found''
   \<and> phase_history (caller (handleStopRecording (always ''completed'') (recording_to None)
       (handleStartRecording (recording_to None) (fresh initial_screen)))) = [Recording, Idle]
   \<and> create_calls (handleStopRecording (always ''completed'') (recording_to None)
       (handleStartRecording (recording_to None) (fresh initial_screen))) = 0"
  using no_audio_returns_to_idle [of "recording_to None"
      "handleStartRecording (recording_to None) (fresh initial_screen)" "always ''completed''"]
  by (simp add: recording_to_def fresh_def initial_screen_def initial_recorder_def
      handleStartRecording_def startRecording_def stopRecording_def setError_def setPhase_def
      set_recorder_def)

text \<open>
  For comparison, a recording that yields a URI goes through uploading and processing,
  navigates to the report and returns to idle.
\<close>

lemma successful_flow_example:
  "phase_history (caller (handleStopRecording (completing_after 1) (recording_to (Some ''file:///a.m4a''))
       (handleStartRecording (recording_to (Some ''file:///a.m4a'')) (fresh initial_screen))))
     = [Recording, Uploading, Processing, Idle]
  \<and> navigated (caller (handleStopRecording (completing_after 1) (recording_to (Some ''file:///a.m4a''))
       (handleStartRecording (recording_to (Some ''file:///a.m4a'')) (fresh initial_screen))))
     = [''report of abc'']
  \<and> processingStatus (caller (handleStopRecording (completing_after 1) (recording_to (Some ''file:///a.m4a''))
       (handleStartRecording (recording_to (Some ''file:///a.m4a'')) (fresh initial_screen))))
     = ''completed''"
  by (simp add: recording_to_def fresh_def initial_screen_def initial_recorder_def
      handleStartRecording_def startRecording_def stopRecording_def setError_def setPhase_def
      set_recorder_def handleStopRecording_def createSession_def completing_after_def
      waitForCompletion_def waitForCompletion_loop.simps call_status_def call_report_def
      notify_def sleep_def reply_def navigate_def resetRecording_def setProcessingStatus_def Let_def)

section \<open>Properties of the loops with throwing callbacks\<close>

declare poll_async_core.simps [simp del]
declare pollSessionStatus_async_loop.simps [simp del]
declare waitForCompletion_async_loop.simps [simp del]

lemma pollSessionStatus_async_loop_core:
  "pollSessionStatus_async_loop srv act sid cb interval maxA attempts w =
   poll_async_core srv act sid cb (\<lambda>st. ProgressStatus (status st)) status
     (ApiError ''Processing timed out'' 408) interval maxA attempts w"
proof (induction "nat (maxA - attempts)" arbitrary: attempts w cb)
  case 0
  then have "\<not> attempts < maxA" by simp
  then show ?case
    by (simp add: pollSessionStatus_async_loop.simps [of _ _ _ _ _ _ attempts]
        poll_async_core.simps [of _ _ _ _ _ _ _ _ _ attempts])
next
  case (Suc n)
  then have lt: "attempts < maxA" and n: "n = nat (maxA - (attempts + 1))" by simp_all
  show ?case
    apply (subst pollSessionStatus_async_loop.simps)
    apply (subst poll_async_core.simps)
    apply (simp add: call_status_def invoke_def thrown_def observed_def suspended_def
        Suc.hyps(1) [OF n] split: sum.splits option.splits)
    done
qed

lemma waitForCompletion_async_loop_core:
  "waitForCompletion_async_loop srv act sid cb maxA interval attempts w =
   poll_async_core srv act sid cb ProgressResponse (\<lambda>st. st)
     (ApiError ''Timeout waiting for processing to complete'' 408) interval maxA attempts w"
proof (induction "nat (maxA - attempts)" arbitrary: attempts w cb)
  case 0
  then have "\<not> attempts < maxA" by simp
  then show ?case
    by (simp add: waitForCompletion_async_loop.simps [of _ _ _ _ _ _ attempts]
        poll_async_core.simps [of _ _ _ _ _ _ _ _ _ attempts])
next
  case (Suc n)
  then have lt: "attempts < maxA" and n: "n = nat (maxA - (attempts + 1))" by simp_all
  show ?case
    apply (subst waitForCompletion_async_loop.simps)
    apply (subst poll_async_core.simps)
    apply (simp add: call_status_def invoke_def thrown_def observed_def suspended_def
        Suc.hyps(1) [OF n] split: sum.splits option.splits)
    done
qed


lemma acore_timeout:
  "\<not> attempts < maxA \<Longrightarrow>
   poll_async_core srv act sid cb ev proj tmo interval maxA attempts w = (Inl tmo, w)"
  by (simp add: poll_async_core.simps)






lemma thrown_returning: "thrown (map_option returning cb) p c = None"
  by (cases cb) (simp_all add: thrown_def returning_def)

lemma observed_returning:
  "observed idle sid (map_option returning cb) e p w =
   notify cb e p (w\<lparr>status_calls := Suc (status_calls w), trace := trace w @ [StatusCall sid]\<rparr>)"
  by (cases cb) (simp_all add: observed_def invoke_def notify_def suspended_def idle_def returning_def)

lemma suspended_idle:
  "suspended (during_fetch idle k) v = v" "suspended (during_sleep idle k) v = v"
  by (simp_all add: suspended_def idle_def)

lemma acore_agrees:
  "poll_async_core srv idle sid (map_option returning cb) ev proj tmo interval maxA attempts w =
   poll_core srv sid cb ev proj tmo interval maxA attempts w"
proof (induction "nat (maxA - attempts)" arbitrary: attempts w)
  case 0
  then show ?case by (simp add: acore_timeout core_timeout)
next
  case (Suc n)
  then have lt: "attempts < maxA" and n: "n = nat (maxA - (attempts + 1))" by simp_all
  show ?case
    apply (subst poll_async_core.simps)
    apply (subst poll_core.simps)
    apply (simp add: lt Suc.hyps(1) [OF n] call_status_def thrown_returning observed_returning
        suspended_idle split: sum.splits)
    done
qed


section \<open>The claim about cancellation\<close>

lemma pollSessionStatus_async_core:
  "pollSessionStatus_async srv act sid cb io mo w =
   poll_async_core srv act sid cb (\<lambda>st. ProgressStatus (status st)) status
     (ApiError ''Processing timed out'' 408) (param 1000 io) (param 120 mo) 0 w"
  by (simp add: pollSessionStatus_async_def pollSessionStatus_async_loop_core)

lemma waitForCompletion_async_core:
  "waitForCompletion_async srv act sid cb mo io w =
   poll_async_core srv act sid cb ProgressResponse (\<lambda>st. st)
     (ApiError ''Timeout waiting for processing to complete'' 408) (param 2000 io) (param 60 mo) 0 w"
  by (simp add: waitForCompletion_async_def waitForCompletion_async_loop_core)

text \<open>
  With a caller that does nothing during the poll and a callback that only updates the
  state, the loops with throwing callbacks are the loops of the first part.
\<close>

lemma async_agrees:
  "pollSessionStatus_async srv idle sid (map_option returning cb) interval maxAttempts w =
     pollSessionStatus srv sid cb interval maxAttempts w"
  "waitForCompletion_async srv idle sid (map_option returning cb') maxAttempts intervalMs w =
     waitForCompletion srv sid cb' maxAttempts intervalMs w"
  by (simp_all add: pollSessionStatus_async_core waitForCompletion_async_core
      pollSessionStatus_core waitForCompletion_core acore_agrees)










end
